theory Spec2Isabelle
  imports Main "HOL-Library.AList" "HOL-Library.Sublist"
begin

section \<open>Data model\<close>

text \<open>
  The server (\<^verbatim>\<open>server.js\<close>) is a set of Express route handlers over a keyed store.
  The values of fields are JSON values. Numbers are the integers (the only numbers the
  handlers produce are millisecond timestamps). An object inside a value is the list of
  its members. An array is the object of its indices, which is how the store holds it:
  the handlers apply only truthiness and spread to a value, and both treat an array as
  that object.
\<close>

datatype json =
    JNull
  | JBool bool
  | JNum int
  | JStr string
  | JObj "(string \<times> json) list"

text \<open>
  A record (a note, a response object) is a finite map from field names to values: the
  order of its fields plays no role in any handler. A request body is the list of the
  members of the parsed JSON object, in the order of the text; of two members with the
  same name the later one counts.
\<close>

type_synonym obj = "string \<Rightarrow> json option"
type_synonym members = "(string \<times> json) list"
type_synonym key = string
type_synonym uid = string

definition get_prop :: "members \<Rightarrow> string \<Rightarrow> json option" where
  "get_prop ms f = map_of (rev ms) f"

text \<open>
  A collection (\<^verbatim>\<open>users/<uid>/notes\<close> or \<^verbatim>\<open>users/<uid>/trash\<close>) is a list of
  children, each a key with its record, in order of insertion, as the specification has
  it. The database holds, for every owner, the two collections. Owner ids and keys are
  single path segments, so that the collections of two owners are disjoint subtrees and
  a key names a child of its collection.
\<close>

type_synonym coll = "(key \<times> obj) list"

record db =
  notes_of :: "uid \<Rightarrow> coll"
  trash_of :: "uid \<Rightarrow> coll"

text \<open>JavaScript truthiness of a JSON value, and \<^verbatim>\<open>x || d\<close> on a property that may be missing
  (a missing property reads as \<^verbatim>\<open>undefined\<close>, which is falsy).\<close>

fun truthy :: "json \<Rightarrow> bool" where
  "truthy JNull = False"
| "truthy (JBool b) = b"
| "truthy (JNum n) = (n \<noteq> 0)"
| "truthy (JStr s) = (s \<noteq> [])"
| "truthy (JObj ms) = True"

definition or_else :: "json option \<Rightarrow> json \<Rightarrow> json" where
  "or_else v d = (case v of None \<Rightarrow> d | Some x \<Rightarrow> if truthy x then x else d)"

subsection \<open>Responses\<close>

text \<open>\<^verbatim>\<open>res.json(x)\<close> answers with status 200; \<^verbatim>\<open>res.status(c).json(x)\<close> with status \<open>c\<close>.\<close>

datatype content = Obj obj | Arr "obj list"

datatype response = Response (status: nat) (payload: content)

definition errorBody :: "string \<Rightarrow> content" where
  "errorBody msg = Obj [''error'' \<mapsto> JStr msg]"

definition okBody :: content where
  "okBody = Obj [''ok'' \<mapsto> JBool True]"

subsection \<open>What a request finds outside the handler\<close>

text \<open>
  Three things a handler reads are not computed by it: the clock (\<^verbatim>\<open>Date.now()\<close>), the key
  that the store generates for a \<^verbatim>\<open>push\<close>, and whether the store performs a call or
  rejects it. \<open>clock e i\<close> is the value of the \<open>i\<close>-th call of \<^verbatim>\<open>Date.now()\<close> made while
  the request is handled (counted from 0); \<open>pushKey e\<close> is the generated key (no handler
  pushes twice); \<open>fault e i\<close> is \<open>Some msg\<close> when the \<open>i\<close>-th awaited store call of the
  handler rejects with an error whose message is \<open>msg\<close>, and \<open>None\<close> when it is performed.
  A rejected call leaves the store as it was (single-key writes are atomic).
\<close>

record env =
  clock :: "nat \<Rightarrow> int"
  pushKey :: key
  fault :: "nat \<Rightarrow> string option"

section \<open>The store\<close>

text \<open>Helper of the source: the two references of an owner.\<close>

definition notesRef :: "uid \<Rightarrow> db \<Rightarrow> coll" where
  "notesRef u d = notes_of d u"

definition trashRef :: "uid \<Rightarrow> db \<Rightarrow> coll" where
  "trashRef u d = trash_of d u"

definition set_notes :: "uid \<Rightarrow> coll \<Rightarrow> db \<Rightarrow> db" where
  "set_notes u c d = d\<lparr>notes_of := (notes_of d)(u := c)\<rparr>"

definition set_trash :: "uid \<Rightarrow> coll \<Rightarrow> db \<Rightarrow> db" where
  "set_trash u c d = d\<lparr>trash_of := (trash_of d)(u := c)\<rparr>"

text \<open>
  The store holds data only: a value that is null, or an object (or array) that holds no
  data, is not stored. \<open>keep v\<close> is what the store holds after \<open>v\<close> is written: \<open>None\<close>
  when it holds nothing, and otherwise \<open>v\<close> without the members that hold nothing.
  \<open>stored r\<close> is the same for the fields of a record.
\<close>

fun keep :: "json \<Rightarrow> json option"
  and keep_members :: "members \<Rightarrow> members" where
  "keep JNull = None"
| "keep (JBool b) = Some (JBool b)"
| "keep (JNum n) = Some (JNum n)"
| "keep (JStr s) = Some (JStr s)"
| "keep (JObj ms) = (case keep_members ms of [] \<Rightarrow> None | m # ms' \<Rightarrow> Some (JObj (m # ms')))"
| "keep_members [] = []"
| "keep_members ((k, v) # ms) =
     (case keep v of None \<Rightarrow> keep_members ms | Some w \<Rightarrow> (k, w) # keep_members ms)"

fun scalar :: "json \<Rightarrow> bool" where
  "scalar (JBool b) = True"
| "scalar (JNum n) = True"
| "scalar (JStr s) = True"
| "scalar v = False"

definition stored :: "obj \<Rightarrow> obj" where
  "stored r = (\<lambda>f. case r f of None \<Rightarrow> None | Some v \<Rightarrow> keep v)"

text \<open>
  \<^verbatim>\<open>s.split(sep)\<close> for a separator that is not empty: the pieces of \<open>s\<close> between the
  occurrences of \<open>sep\<close>, found from left to right. \<open>acc\<close> holds the current piece, reversed.
\<close>

function js_split :: "string \<Rightarrow> string \<Rightarrow> string \<Rightarrow> string list" where
  "js_split sep acc [] = [rev acc]"
| "js_split sep acc (c # cs) =
     (if sep \<noteq> [] \<and> prefix sep (c # cs)
      then rev acc # js_split sep [] (drop (length sep) (c # cs))
      else js_split sep (c # acc) cs)"
  by pat_completeness auto
termination
  by (relation "measure (\<lambda>(sep, acc, s). length s)") (auto simp: neq_Nil_conv)

definition str_split :: "string \<Rightarrow> string \<Rightarrow> string list" where
  "str_split s sep = js_split sep [] s"

text \<open>
  The key of a member of an update is a path below the child: its segments are the
  pieces between the slashes that are not empty. \<open>write_at p v cur\<close> is the value of a
  field after \<open>v\<close> is written at the path \<open>p\<close> below it, \<open>cur\<close> being the value before.
  Writing at the field itself replaces it by what the store keeps of \<open>v\<close>, which removes
  the field when \<open>v\<close> is null. Writing below it turns a field that is not an object into
  one; writing nothing below it leaves such a field as it is.
\<close>

definition segments :: "string \<Rightarrow> string list" where
  "segments k = filter (\<lambda>s. s \<noteq> []) (str_split k ''/'')"

fun write_at :: "string list \<Rightarrow> json \<Rightarrow> json option \<Rightarrow> json option" where
  "write_at [] v cur = keep v"
| "write_at (s # p) v cur =
     (case cur of
        Some (JObj ms) \<Rightarrow>
          (case (case write_at p v (map_of ms s) of
                   None \<Rightarrow> AList.delete s ms
                 | Some w \<Rightarrow> AList.update s w ms) of
             [] \<Rightarrow> None
           | m # ms' \<Rightarrow> Some (JObj (m # ms')))
      | _ \<Rightarrow>
          (case write_at p v None of
             None \<Rightarrow> cur
           | Some w \<Rightarrow> Some (JObj [(s, w)])))"

text \<open>The field of the record that a member of an update addresses.\<close>

definition first_segment :: "string \<Rightarrow> string option" where
  "first_segment k = (case segments k of [] \<Rightarrow> None | f # p \<Rightarrow> Some f)"

definition write_member :: "string \<times> json \<Rightarrow> obj \<Rightarrow> obj" where
  "write_member m r =
     (case segments (fst m) of
        [] \<Rightarrow> r
      | f # p \<Rightarrow> r(f := write_at p (snd m) (r f)))"

text \<open>
  The operations of a reference that the handlers call. \<^verbatim>\<open>child(id).once('value')\<close> reads
  the record at a key (\<^verbatim>\<open>val()\<close> is \<^verbatim>\<open>null\<close> when there is none); what it reads is data
  as the store holds it, which is the listed record itself in every collection that the
  operations below have written. \<^verbatim>\<open>push(v)\<close> writes what the store keeps of \<open>v\<close> at the
  generated key. \<^verbatim>\<open>child(id).update(u)\<close> writes the members of \<open>u\<close> one by one, each at its path
  below the key, and keeps what they do not address, creating the child when the key has
  none. \<^verbatim>\<open>child(id).remove()\<close> deletes the child and does nothing when there is none.
\<close>

definition child_val :: "coll \<Rightarrow> key \<Rightarrow> obj option" where
  "child_val c k = map_option stored (map_of c k)"

definition push :: "key \<Rightarrow> obj \<Rightarrow> coll \<Rightarrow> coll" where
  "push k v c = AList.update k (stored v) c"

definition child_update :: "key \<Rightarrow> members \<Rightarrow> coll \<Rightarrow> coll" where
  "child_update k u c =
     AList.update k
       (fold write_member u (case child_val c k of None \<Rightarrow> Map.empty | Some r \<Rightarrow> r)) c"

definition child_remove :: "key \<Rightarrow> coll \<Rightarrow> coll" where
  "child_remove k c = AList.delete k c"

text \<open>Reading one field of one child, \<^verbatim>\<open>child(k).child(f)\<close>.\<close>

definition getField :: "coll \<Rightarrow> key \<Rightarrow> string \<Rightarrow> json option" where
  "getField c k f = (case child_val c k of None \<Rightarrow> None | Some r \<Rightarrow> r f)"

text \<open>
  A collection holds data when each of its records is in the form in which the store
  keeps it. The collections that the operations above write hold data, and reading such
  a collection returns its records as they are.
\<close>

definition holds_data :: "coll \<Rightarrow> bool" where
  "holds_data c = (\<forall>p \<in> set c. stored (snd p) = snd p)"

definition db_holds_data :: "db \<Rightarrow> bool" where
  "db_holds_data d = (\<forall>u. holds_data (notes_of d u) \<and> holds_data (trash_of d u))"

section \<open>Route handlers\<close>

definition serverError :: "string \<Rightarrow> response" where
  "serverError msg = Response 500 (errorBody msg)"

text \<open>\<^verbatim>\<open>Object.keys(data).map(k => ({ id: k, ...data[k] }))\<close>: the fields of the record come
  after \<^verbatim>\<open>id\<close> in the literal, so a field named \<^verbatim>\<open>id\<close> of the record wins over the key.\<close>

definition withId :: "key \<Rightarrow> obj \<Rightarrow> obj" where
  "withId k r = [''id'' \<mapsto> JStr k] ++ r"

definition listing :: "coll \<Rightarrow> obj list" where
  "listing c = map (\<lambda>(k, r). withId k (stored r)) c"

text \<open>\<^verbatim>\<open>GET /api/notes\<close>\<close>

definition get_api_notes :: "env \<Rightarrow> uid \<Rightarrow> db \<Rightarrow> response \<times> db" where
  "get_api_notes e u d =
     (case fault e 0 of
        Some m \<Rightarrow> (serverError m, d)
      | None \<Rightarrow> (Response 200 (Arr (listing (notesRef u d))), d))"

text \<open>\<^verbatim>\<open>POST /api/notes\<close>\<close>

definition new_note :: "env \<Rightarrow> members \<Rightarrow> obj" where
  "new_note e body =
     [''text'' \<mapsto> or_else (get_prop body ''text'') (JStr []),
      ''file'' \<mapsto> or_else (get_prop body ''file'') JNull,
      ''createdAt'' \<mapsto> JNum (clock e 0),
      ''updatedAt'' \<mapsto> JNum (clock e 1)]"

definition post_api_notes :: "env \<Rightarrow> uid \<Rightarrow> members \<Rightarrow> db \<Rightarrow> response \<times> db" where
  "post_api_notes e u body d =
     (let note = new_note e body in
      case fault e 0 of
        Some m \<Rightarrow> (serverError m, d)
      | None \<Rightarrow>
          (Response 200 (Obj (withId (pushKey e) note)),
           set_notes u (push (pushKey e) note (notesRef u d)) d))"

text \<open>\<^verbatim>\<open>PUT /api/notes/:id\<close>\<close>

definition put_api_notes_id ::
  "env \<Rightarrow> uid \<Rightarrow> key \<Rightarrow> members \<Rightarrow> db \<Rightarrow> response \<times> db" where
  "put_api_notes_id e u i body d =
     (let update = body @ [(''updatedAt'', JNum (clock e 0))] in
      case fault e 0 of
        Some m \<Rightarrow> (serverError m, d)
      | None \<Rightarrow>
          (let d1 = set_notes u (child_update i update (notesRef u d)) d in
           case fault e 1 of
             Some m \<Rightarrow> (serverError m, d1)
           | None \<Rightarrow>
               (Response 200
                  (Obj (withId i (case child_val (notesRef u d1) i of
                                    None \<Rightarrow> Map.empty | Some r \<Rightarrow> r))),
                d1)))"

text \<open>\<^verbatim>\<open>DELETE /api/notes/:id\<close>: delete note, move to the owner's trash.\<close>

definition delete_api_notes_id :: "env \<Rightarrow> uid \<Rightarrow> key \<Rightarrow> db \<Rightarrow> response \<times> db" where
  "delete_api_notes_id e u i d =
     (case fault e 0 of
        Some m \<Rightarrow> (serverError m, d)
      | None \<Rightarrow>
          (case child_val (notesRef u d) i of
             None \<Rightarrow> (Response 404 (errorBody ''Note not found''), d)
           | Some note \<Rightarrow>
               (case fault e 1 of
                  Some m \<Rightarrow> (serverError m, d)
                | None \<Rightarrow>
                    (let d1 = set_trash u
                                (push (pushKey e) (note(''deletedAt'' \<mapsto> JNum (clock e 0)))
                                   (trashRef u d)) d in
                     case fault e 2 of
                       Some m \<Rightarrow> (serverError m, d1)
                     | None \<Rightarrow>
                         (Response 200 okBody,
                          set_notes u (child_remove i (notesRef u d1)) d1)))))"

text \<open>\<^verbatim>\<open>GET /api/trash\<close>\<close>

definition get_api_trash :: "env \<Rightarrow> uid \<Rightarrow> db \<Rightarrow> response \<times> db" where
  "get_api_trash e u d =
     (case fault e 0 of
        Some m \<Rightarrow> (serverError m, d)
      | None \<Rightarrow> (Response 200 (Arr (listing (trashRef u d))), d))"

text \<open>\<^verbatim>\<open>POST /api/trash/restore/:id\<close>\<close>

definition post_api_trash_restore_id :: "env \<Rightarrow> uid \<Rightarrow> key \<Rightarrow> db \<Rightarrow> response \<times> db" where
  "post_api_trash_restore_id e u i d =
     (case fault e 0 of
        Some m \<Rightarrow> (serverError m, d)
      | None \<Rightarrow>
          (case child_val (trashRef u d) i of
             None \<Rightarrow> (Response 404 (errorBody ''Trash item not found''), d)
           | Some item \<Rightarrow>
               (case fault e 1 of
                  Some m \<Rightarrow> (serverError m, d)
                | None \<Rightarrow>
                    (let d1 = set_notes u (push (pushKey e) item (notesRef u d)) d in
                     case fault e 2 of
                       Some m \<Rightarrow> (serverError m, d1)
                     | None \<Rightarrow>
                         (Response 200 (Obj (withId (pushKey e) item)),
                          set_trash u (child_remove i (trashRef u d1)) d1)))))"

text \<open>\<^verbatim>\<open>DELETE /api/trash/:id\<close>\<close>

definition delete_api_trash_id :: "env \<Rightarrow> uid \<Rightarrow> key \<Rightarrow> db \<Rightarrow> response \<times> db" where
  "delete_api_trash_id e u i d =
     (case fault e 0 of
        Some m \<Rightarrow> (serverError m, d)
      | None \<Rightarrow> (Response 200 okBody, set_trash u (child_remove i (trashRef u d)) d))"

section \<open>Authentication and routing\<close>

text \<open>
  The token verifier of the identity platform is outside the source: \<open>verifyIdToken t\<close> is
  \<open>Some\<close> of the decoded token, or \<open>None\<close> when the call throws.
\<close>

record decoded =
  decoded_uid :: uid
  decoded_email :: "string option"

record user =
  uid :: uid
  email :: "string option"

definition verifyTokenMiddleware ::
  "(string \<Rightarrow> decoded option) \<Rightarrow> string option \<Rightarrow> response + user" where
  "verifyTokenMiddleware verifyIdToken header =
     (let auth = (case header of None \<Rightarrow> [] | Some h \<Rightarrow> h) in
      if \<not> prefix ''Bearer '' auth
      then Inl (Response 401 (errorBody ''No token provided''))
      else
        (case (case str_split auth ''Bearer '' of
                 _ # idToken # _ \<Rightarrow> verifyIdToken idToken
               | _ \<Rightarrow> None) of
           None \<Rightarrow> Inl (Response 401 (errorBody ''Invalid token''))
         | Some dec \<Rightarrow> Inr \<lparr>uid = decoded_uid dec, email = decoded_email dec\<rparr>))"

text \<open>
  The routes over the two collections, with what each takes from the path and the body.
  (\<^verbatim>\<open>POST /api/upload\<close> writes to the blob bucket only and is not part of this model.)
\<close>

datatype route =
    GetNotes
  | PostNotes members
  | PutNotesId key members
  | DeleteNotesId key
  | GetTrash
  | PostTrashRestoreId key
  | DeleteTrashId key

record request =
  authorization :: "string option"
  route :: route

definition handle :: "env \<Rightarrow> uid \<Rightarrow> route \<Rightarrow> db \<Rightarrow> response \<times> db" where
  "handle e u r d =
     (case r of
        GetNotes \<Rightarrow> get_api_notes e u d
      | PostNotes body \<Rightarrow> post_api_notes e u body d
      | PutNotesId i body \<Rightarrow> put_api_notes_id e u i body d
      | DeleteNotesId i \<Rightarrow> delete_api_notes_id e u i d
      | GetTrash \<Rightarrow> get_api_trash e u d
      | PostTrashRestoreId i \<Rightarrow> post_api_trash_restore_id e u i d
      | DeleteTrashId i \<Rightarrow> delete_api_trash_id e u i d)"

definition api ::
  "(string \<Rightarrow> decoded option) \<Rightarrow> env \<Rightarrow> request \<Rightarrow> db \<Rightarrow> response \<times> db" where
  "api verifyIdToken e req d =
     (case verifyTokenMiddleware verifyIdToken (authorization req) of
        Inl r \<Rightarrow> (r, d)
      | Inr usr \<Rightarrow> handle e (uid usr) (route req) d)"

section \<open>Concrete requests and stores\<close>

text \<open>
  Environments in which every store call is performed: \<open>env_at t k\<close> has a clock that
  stands at \<open>t\<close> during the request, \<open>env_tick t k\<close> a clock that advances by one
  millisecond between two readings. In \<open>env_fail n t k\<close> the \<open>n\<close>-th store call is
  rejected.
\<close>

definition env_at :: "int \<Rightarrow> key \<Rightarrow> env" where
  "env_at t k = \<lparr>clock = (\<lambda>i. t), pushKey = k, fault = (\<lambda>i. None)\<rparr>"

definition env_tick :: "int \<Rightarrow> key \<Rightarrow> env" where
  "env_tick t k = \<lparr>clock = (\<lambda>i. t + int i), pushKey = k, fault = (\<lambda>i. None)\<rparr>"

definition env_fail :: "nat \<Rightarrow> int \<Rightarrow> key \<Rightarrow> env" where
  "env_fail n t k =
     \<lparr>clock = (\<lambda>i. t), pushKey = k,
      fault = (\<lambda>i. if i = n then Some ''unavailable'' else None)\<rparr>"

definition db_empty :: db where
  "db_empty = \<lparr>notes_of = (\<lambda>u. []), trash_of = (\<lambda>u. [])\<rparr>"

text \<open>
  The scenario of the specification: owner \<open>u1\<close> creates the note \<open>buy milk\<close> at time
  1000 (key \<open>n1\<close>), deletes it at time 2000 (trash key \<open>t1\<close>) and restores it at time
  3000 (key \<open>n2\<close>).
\<close>

definition db_created :: db where
  "db_created =
     snd (post_api_notes (env_at 1000 ''n1'') ''u1'' [(''text'', JStr ''buy milk'')] db_empty)"

definition db_deleted :: db where
  "db_deleted = snd (delete_api_notes_id (env_at 2000 ''t1'') ''u1'' ''n1'' db_created)"


text \<open>The note \<open>n1\<close> of the scenario, edited when the clock reads 1500.\<close>

definition db_edited :: db where
  "db_edited =
     snd (put_api_notes_id (env_at 1500 []) ''u1'' ''n1'' [(''text'', JStr ''buy oat milk'')]
            db_created)"

text \<open>
  A second scenario: after the first note, the owner creates a second one (key \<open>n2\<close>)
  and sends an update of \<open>n2\<close> whose body has a field \<open>id\<close> with the value \<open>n1\<close>.
\<close>

definition db_two :: db where
  "db_two =
     snd (post_api_notes (env_at 1100 ''n2'') ''u1'' [(''text'', JStr ''call mum'')] db_created)"


text \<open>
  A token verifier that knows two tokens: \<open>tokA\<close> of owner \<open>u1\<close> and \<open>tokB\<close> of
  owner \<open>u2\<close>.
\<close>

definition verify_two :: "string \<Rightarrow> decoded option" where
  "verify_two t =
     (if t = ''tokA'' then Some \<lparr>decoded_uid = ''u1'', decoded_email = None\<rparr>
      else if t = ''tokB'' then Some \<lparr>decoded_uid = ''u2'', decoded_email = None\<rparr>
      else None)"


section \<open>Basic facts about the store\<close>

lemma notes_of_set_notes [simp]: "notes_of (set_notes u c d) = (notes_of d)(u := c)"
  by (simp add: set_notes_def)

lemma trash_of_set_notes [simp]: "trash_of (set_notes u c d) = trash_of d"
  by (simp add: set_notes_def)

lemma notes_of_set_trash [simp]: "notes_of (set_trash u c d) = notes_of d"
  by (simp add: set_trash_def)

lemma trash_of_set_trash [simp]: "trash_of (set_trash u c d) = (trash_of d)(u := c)"
  by (simp add: set_trash_def)

lemma update_fresh_append: "k \<notin> fst ` set al \<Longrightarrow> AList.update k v al = al @ [(k, v)]"
  by (induction al) auto

lemma set_update_subset: "set (AList.update k v al) \<subseteq> insert (k, v) (set al)"
  by (induction al) auto

lemma keep_stable:
  "keep v = Some w \<Longrightarrow> keep w = Some w"
  "keep_members (keep_members ms) = keep_members ms"
proof (induction v and ms arbitrary: w rule: keep_keep_members.induct)
  case (5 ms)
  then show ?case
    by (auto split: list.splits)
next
  case (7 k v ms)
  then show ?case
    by (auto split: option.splits)
qed auto

lemma keep_scalar: "scalar v \<Longrightarrow> keep v = Some v"
  by (cases v) simp_all

lemma keep_members_length: "length (keep_members ms) \<le> length ms"
  by (induction ms) (auto split: option.splits)

lemma keep_members_id_iff:
  "keep_members ms = ms \<longleftrightarrow> (\<forall>m \<in> set ms. keep (snd m) = Some (snd m))"
proof (induction ms)
  case Nil
  then show ?case by simp
next
  case (Cons m ms)
  obtain k v where m: "m = (k, v)" by (cases m)
  have "keep_members ms \<noteq> (k, v) # ms"
    using keep_members_length [of ms] by auto
  with Cons m show ?case
    by (auto split: option.splits)
qed

lemma keep_obj_id: "ms \<noteq> [] \<Longrightarrow> keep_members ms = ms \<Longrightarrow> keep (JObj ms) = Some (JObj ms)"
  by (cases ms) auto

lemma keep_obj_idD: "keep (JObj ms) = Some (JObj ms) \<Longrightarrow> keep_members ms = ms"
  by (auto split: list.splits)

lemma stored_stored [simp]: "stored (stored r) = stored r"
  by (auto simp: stored_def fun_eq_iff keep_stable split: option.splits)

lemma stored_empty [simp]: "stored Map.empty = Map.empty"
  by (simp add: stored_def)

lemma stored_upd [simp]: "stored (r(f \<mapsto> v)) = (stored r)(f := keep v)"
  by (auto simp: stored_def fun_eq_iff)

lemma stored_field: "stored r f = (case r f of None \<Rightarrow> None | Some v \<Rightarrow> keep v)"
  by (simp add: stored_def)

lemma stored_id_iff: "stored r = r \<longleftrightarrow> (\<forall>f v. r f = Some v \<longrightarrow> keep v = Some v)"
  by (auto simp: stored_def fun_eq_iff split: option.splits)

lemma dom_stored: "dom (stored r) \<subseteq> dom r"
  by (auto simp: stored_def split: option.splits)

lemma child_val_stored: "child_val c k = Some r \<Longrightarrow> stored r = r"
  by (auto simp: child_val_def)

lemma child_val_present: "child_val c k = Some r \<Longrightarrow> k \<in> fst ` set c"
  by (auto simp: child_val_def dest: map_of_SomeD intro: rev_image_eqI)


lemma child_val_update: "child_val (AList.update k r c) k' = (if k' = k then Some (stored r) else child_val c k')"
  by (simp add: child_val_def AList.update_conv')


lemma child_val_append_fresh:
  "k \<notin> fst ` set c \<Longrightarrow> child_val (c @ [(k, r)]) k' = (if k' = k then Some (stored r) else child_val c k')"
  using child_val_update [of k r c k'] by (simp add: update_fresh_append)

lemma js_split_no_sep: "c \<notin> set s \<Longrightarrow> js_split [c] acc s = [rev acc @ s]"
  by (induction s arbitrary: acc) auto

lemma segments_plain: "f \<noteq> [] \<Longrightarrow> CHR ''/'' \<notin> set f \<Longrightarrow> segments f = [f]"
  by (simp add: segments_def str_split_def js_split_no_sep)

lemma segments_updatedAt: "segments ''updatedAt'' = [''updatedAt'']"
  by (simp add: segments_plain)

lemma first_segment_plain: "f \<noteq> [] \<Longrightarrow> CHR ''/'' \<notin> set f \<Longrightarrow> first_segment f = Some f"
  by (simp add: first_segment_def segments_plain)

lemma write_at_kept:
  "(\<And>c. cur = Some c \<Longrightarrow> keep c = Some c) \<Longrightarrow> write_at p v cur = Some w \<Longrightarrow> keep w = Some w"
proof (induction p arbitrary: cur w)
  case Nil
  then show ?case by (simp add: keep_stable)
next
  case (Cons s p)
  show ?case
  proof (cases "\<exists>ms. cur = Some (JObj ms)")
    case True
    then obtain ms where cur: "cur = Some (JObj ms)" by blast
    with Cons.prems(1) have "keep (JObj ms) = Some (JObj ms)"
      by blast
    then have ms: "keep_members ms = ms"
      by (rule keep_obj_idD)
    then have elems: "\<forall>m \<in> set ms. keep (snd m) = Some (snd m)"
      by (simp add: keep_members_id_iff)
    have child: "write_at p v (map_of ms s) = Some w' \<Longrightarrow> keep w' = Some w'" for w'
    proof (rule Cons.IH)
      fix c assume "map_of ms s = Some c"
      then have "(s, c) \<in> set ms" by (rule map_of_SomeD)
      with elems show "keep c = Some c" by auto
    qed
    let ?ms' = "case write_at p v (map_of ms s) of
        None \<Rightarrow> AList.delete s ms | Some w' \<Rightarrow> AList.update s w' ms"
    have "\<forall>m \<in> set ?ms'. keep (snd m) = Some (snd m)"
    proof (cases "write_at p v (map_of ms s)")
      case None
      with elems show ?thesis
        by (auto simp: AList.delete_eq)
    next
      case (Some w')
      with child have "keep w' = Some w'" by simp
      with elems Some show ?thesis
        using set_update_subset [of s w' ms] by auto
    qed
    then have "keep_members ?ms' = ?ms'"
      by (simp add: keep_members_id_iff)
    with Cons.prems(2) cur show ?thesis
      by (auto split: list.splits option.splits)
  next
    case False
    have child: "write_at p v None = Some w' \<Longrightarrow> keep w' = Some w'" for w'
      by (rule Cons.IH [of None]) simp_all
    from False Cons.prems show ?thesis
      by (auto split: option.splits json.splits dest: child)
  qed
qed

lemma write_member_stored:
  assumes "stored r = r"
  shows "stored (write_member m r) = write_member m r"
proof (cases "segments (fst m)")
  case Nil
  with assms show ?thesis by (simp add: write_member_def)
next
  case (Cons f p)
  from assms have r: "r g = Some c \<Longrightarrow> keep c = Some c" for g c
    by (simp add: stored_id_iff)
  have "keep w = Some w" if "write_at p (snd m) (r f) = Some w" for w
    using _ that by (rule write_at_kept) (rule r)
  with r have "\<forall>g w. (r(f := write_at p (snd m) (r f))) g = Some w \<longrightarrow> keep w = Some w"
    by simp
  with Cons show ?thesis
    by (simp add: write_member_def stored_id_iff del: fun_upd_apply)
qed

lemma fold_write_stored: "stored r = r \<Longrightarrow> stored (fold write_member ms r) = fold write_member ms r"
  by (induction ms arbitrary: r) (simp_all add: write_member_stored)

lemma write_member_other: "first_segment (fst m) \<noteq> Some f \<Longrightarrow> write_member m r f = r f"
  by (auto simp: write_member_def first_segment_def split: list.splits)

lemma fold_write_other:
  "\<forall>m \<in> set ms. first_segment (fst m) \<noteq> Some f \<Longrightarrow> fold write_member ms r f = r f"
  by (induction ms arbitrary: r) (simp_all add: write_member_other)

lemma write_member_field: "r f = r' f \<Longrightarrow> write_member m r f = write_member m r' f"
  by (auto simp: write_member_def split: list.splits)

lemma fold_write_field: "r f = r' f \<Longrightarrow> fold write_member ms r f = fold write_member ms r' f"
proof (induction ms arbitrary: r r')
  case Nil
  then show ?case by simp
next
  case (Cons m ms)
  from Cons.prems have "write_member m r f = write_member m r' f"
    by (rule write_member_field)
  then have "fold write_member ms (write_member m r) f = fold write_member ms (write_member m r') f"
    by (rule Cons.IH)
  then show ?case by simp
qed

lemma fold_write_filter:
  "\<forall>m \<in> set ms. \<not> P m \<longrightarrow> first_segment (fst m) \<noteq> Some f \<Longrightarrow>
   fold write_member (filter P ms) r f = fold write_member ms r f"
proof (induction ms arbitrary: r)
  case Nil
  then show ?case by simp
next
  case (Cons m ms)
  show ?case
  proof (cases "P m")
    case True
    with Cons show ?thesis by simp
  next
    case False
    with Cons.prems have "write_member m r f = r f"
      by (simp add: write_member_other)
    then have "fold write_member ms (write_member m r) f = fold write_member ms r f"
      by (rule fold_write_field)
    with False Cons show ?thesis by simp
  qed
qed

lemma fold_write_single:
  assumes "filter (\<lambda>m. first_segment (fst m) = Some f) ms = [(f, v)]" and "segments f = [f]"
  shows "fold write_member ms r f = keep v"
  using assms(1)
proof (induction ms arbitrary: r)
  case Nil
  then show ?case by simp
next
  case (Cons m ms)
  show ?case
  proof (cases "first_segment (fst m) = Some f")
    case True
    with Cons.prems have m: "m = (f, v)"
      and rest: "\<forall>m \<in> set ms. first_segment (fst m) \<noteq> Some f"
      by (auto simp: filter_empty_conv)
    from m assms(2) have "write_member m r f = keep v"
      by (simp add: write_member_def)
    with rest show ?thesis
      by (simp add: fold_write_other)
  next
    case False
    with Cons show ?thesis by simp
  qed
qed

lemma fold_write_without_updatedAt:
  "fold write_member
     (filter (\<lambda>m. first_segment (fst m) \<noteq> Some ''updatedAt'') body @ [(''updatedAt'', t)]) old
   = fold write_member (body @ [(''updatedAt'', t)]) old"
proof
  fix f
  show "fold write_member
     (filter (\<lambda>m. first_segment (fst m) \<noteq> Some ''updatedAt'') body @ [(''updatedAt'', t)]) old f
   = fold write_member (body @ [(''updatedAt'', t)]) old f"
  proof (cases "f = ''updatedAt''")
    case True
    then show ?thesis
      by (simp add: write_member_def segments_updatedAt)
  next
    case False
    then have "fold write_member (filter (\<lambda>m. first_segment (fst m) \<noteq> Some ''updatedAt'') body) old f
        = fold write_member body old f"
      by (intro fold_write_filter) auto
    with False show ?thesis
      by (simp add: write_member_def segments_updatedAt)
  qed
qed

lemmas store_defs = notesRef_def trashRef_def push_def child_update_def child_remove_def

lemmas scenario_defs = db_deleted_def db_created_def db_empty_def

lemmas eval_defs = post_api_trash_restore_id_def delete_api_notes_id_def post_api_notes_def
  put_api_notes_id_def delete_api_trash_id_def get_api_notes_def get_api_trash_def
  new_note_def get_prop_def or_else_def withId_def listing_def
  store_defs child_val_def getField_def Let_def env_at_def

section \<open>Restore\<close>




section \<open>Permanent delete\<close>



section \<open>Create before remove\<close>

text \<open>
  C2. In SoftDelete and in Restore the record is written to the destination collection
  (the trash for SoftDelete, the active notes for Restore) before the removal from the
  source collection is attempted. When the write is rejected the handler answers 500 and
  the store is unchanged, so the removal has not happened. When the write is performed
  and the removal is rejected, the handler answers 500 and the record is in both
  collections: still under its key in the source, and under the generated key in the
  destination. Whatever the store rejects or performs, after the request the record is
  in the source or in the destination: never in neither.
\<close>

theorem create_before_remove:
  fixes e :: env and d :: db and u :: uid and i :: key
  defines "rd \<equiv> fst (delete_api_notes_id e u i d)"
      and "dd \<equiv> snd (delete_api_notes_id e u i d)"
      and "rr \<equiv> fst (post_api_trash_restore_id e u i d)"
      and "dr \<equiv> snd (post_api_trash_restore_id e u i d)"
  shows "(\<forall>n. child_val (notesRef u d) i = Some n \<longrightarrow>
            (\<forall>m. fault e 0 = None \<and> fault e 1 = Some m \<longrightarrow> rd = serverError m \<and> dd = d)
          \<and> (\<forall>m. fault e 0 = None \<and> fault e 1 = None \<and> fault e 2 = Some m \<longrightarrow>
                 rd = serverError m
               \<and> child_val (notesRef u dd) i = Some n
               \<and> child_val (trashRef u dd) (pushKey e)
                   = Some (n(''deletedAt'' \<mapsto> JNum (clock e 0))))
          \<and> (child_val (notesRef u dd) i = Some n
              \<or> child_val (trashRef u dd) (pushKey e)
                   = Some (n(''deletedAt'' \<mapsto> JNum (clock e 0)))))
       \<and> (\<forall>t. child_val (trashRef u d) i = Some t \<longrightarrow>
            (\<forall>m. fault e 0 = None \<and> fault e 1 = Some m \<longrightarrow> rr = serverError m \<and> dr = d)
          \<and> (\<forall>m. fault e 0 = None \<and> fault e 1 = None \<and> fault e 2 = Some m \<longrightarrow>
                 rr = serverError m
               \<and> child_val (trashRef u dr) i = Some t
               \<and> child_val (notesRef u dr) (pushKey e) = Some t)
          \<and> (child_val (trashRef u dr) i = Some t
              \<or> child_val (notesRef u dr) (pushKey e) = Some t))"
proof (intro conjI allI impI)
  fix n assume n: "child_val (notesRef u d) i = Some n"
  then have sn: "stored n = n"
    by (rule child_val_stored)
  { fix m assume "fault e 0 = None \<and> fault e 1 = Some m"
    with n show "rd = serverError m" and "dd = d"
      by (simp_all add: rd_def dd_def delete_api_notes_id_def) }
  { fix m assume f: "fault e 0 = None \<and> fault e 1 = None \<and> fault e 2 = Some m"
    with n show "rd = serverError m"
      by (simp add: rd_def delete_api_notes_id_def Let_def)
    from n f show "child_val (notesRef u dd) i = Some n"
      by (simp add: dd_def delete_api_notes_id_def Let_def store_defs)
    from n f show "child_val (trashRef u dd) (pushKey e)
        = Some (n(''deletedAt'' \<mapsto> JNum (clock e 0)))"
      by (simp add: dd_def delete_api_notes_id_def Let_def store_defs child_val_update sn) }
  from n show "child_val (notesRef u dd) i = Some n
      \<or> child_val (trashRef u dd) (pushKey e) = Some (n(''deletedAt'' \<mapsto> JNum (clock e 0)))"
    by (simp add: dd_def delete_api_notes_id_def Let_def store_defs child_val_update sn
        split: option.split)
next
  fix t assume t: "child_val (trashRef u d) i = Some t"
  then have st: "stored t = t"
    by (rule child_val_stored)
  { fix m assume "fault e 0 = None \<and> fault e 1 = Some m"
    with t show "rr = serverError m" and "dr = d"
      by (simp_all add: rr_def dr_def post_api_trash_restore_id_def) }
  { fix m assume f: "fault e 0 = None \<and> fault e 1 = None \<and> fault e 2 = Some m"
    with t show "rr = serverError m"
      by (simp add: rr_def post_api_trash_restore_id_def Let_def)
    from t f show "child_val (trashRef u dr) i = Some t"
      by (simp add: dr_def post_api_trash_restore_id_def Let_def store_defs)
    from t f show "child_val (notesRef u dr) (pushKey e) = Some t"
      by (simp add: dr_def post_api_trash_restore_id_def Let_def store_defs child_val_update st) }
  from t show "child_val (trashRef u dr) i = Some t
      \<or> child_val (notesRef u dr) (pushKey e) = Some t"
    by (simp add: dr_def post_api_trash_restore_id_def Let_def store_defs child_val_update st
        split: option.split)
qed

theorem create_before_remove_witness:
  "child_val (notesRef ''u1'' db_created) ''n1'' \<noteq> None
   \<and> fault (env_fail 2 2000 ''t1'') 0 = None \<and> fault (env_fail 2 2000 ''t1'') 1 = None
   \<and> fault (env_fail 2 2000 ''t1'') 2 = Some ''unavailable''
   \<and> fst (delete_api_notes_id (env_fail 2 2000 ''t1'') ''u1'' ''n1'' db_created)
       = serverError ''unavailable''
   \<and> getField (notesRef ''u1''
        (snd (delete_api_notes_id (env_fail 2 2000 ''t1'') ''u1'' ''n1'' db_created)))
        ''n1'' ''text'' = Some (JStr ''buy milk'')
   \<and> getField (trashRef ''u1''
        (snd (delete_api_notes_id (env_fail 2 2000 ''t1'') ''u1'' ''n1'' db_created)))
        ''t1'' ''text'' = Some (JStr ''buy milk'')
   \<and> child_val (trashRef ''u1'' db_deleted) ''t1'' \<noteq> None
   \<and> fst (post_api_trash_restore_id (env_fail 2 3000 ''n2'') ''u1'' ''t1'' db_deleted)
       = serverError ''unavailable''
   \<and> getField (trashRef ''u1''
        (snd (post_api_trash_restore_id (env_fail 2 3000 ''n2'') ''u1'' ''t1'' db_deleted)))
        ''t1'' ''text'' = Some (JStr ''buy milk'')
   \<and> getField (notesRef ''u1''
        (snd (post_api_trash_restore_id (env_fail 2 3000 ''n2'') ''u1'' ''t1'' db_deleted)))
        ''n2'' ''text'' = Some (JStr ''buy milk'')"
  using create_before_remove [of "''u1''" db_created "''n1''" "env_fail 2 2000 ''t1''"]
    create_before_remove [of "''u1''" db_deleted "''t1''" "env_fail 2 3000 ''n2''"]
  by (simp add: scenario_defs eval_defs env_fail_def)

section \<open>Soft delete\<close>





section \<open>Update\<close>

lemma put_performed:
  fixes e :: env and d :: db and u :: uid and i :: key and body :: members
  defines "new \<equiv> fold write_member (body @ [(''updatedAt'', JNum (clock e 0))])
                   (case child_val (notes_of d u) i of None \<Rightarrow> Map.empty | Some r \<Rightarrow> r)"
  assumes "fault e 0 = None" and "fault e 1 = None"
  shows "put_api_notes_id e u i body d =
    (Response 200 (Obj (withId i new)), set_notes u (AList.update i new (notes_of d u)) d)"
    and "stored new = new"
    and "new ''updatedAt'' = Some (JNum (clock e 0))"
proof -
  have "stored (case child_val (notes_of d u) i of None \<Rightarrow> Map.empty | Some r \<Rightarrow> r)
      = (case child_val (notes_of d u) i of None \<Rightarrow> Map.empty | Some r \<Rightarrow> r)"
    by (auto split: option.splits dest: child_val_stored)
  then show st: "stored new = new"
    unfolding new_def by (rule fold_write_stored)
  show "new ''updatedAt'' = Some (JNum (clock e 0))"
    by (simp add: new_def write_member_def segments_updatedAt)
  show "put_api_notes_id e u i body d =
    (Response 200 (Obj (withId i new)), set_notes u (AList.update i new (notes_of d u)) d)"
    using assms(2,3) st unfolding new_def
    by (simp add: put_api_notes_id_def store_defs Let_def child_val_update)
qed

lemma put_status: "status (fst (put_api_notes_id e u i body d)) \<noteq> 404"
  by (simp add: put_api_notes_id_def Let_def serverError_def split: option.split)

lemma put_without_updatedAt:
  "put_api_notes_id e u i (filter (\<lambda>m. first_segment (fst m) \<noteq> Some ''updatedAt'') body) d
     = put_api_notes_id e u i body d"
  unfolding put_api_notes_id_def child_update_def Let_def fold_write_without_updatedAt ..

text \<open>
  C4 (what the code does where the claim asks for NotFound). The handler of Update has no
  answer 404. When the owner's active collection has no record under \<open>i\<close> and the store
  performs both calls, Update answers 200 and the collection gains a record under \<open>i\<close>:
  what the members of the body and \<open>updatedAt\<close>, written one by one into an empty
  record, leave there.
\<close>

theorem update_of_unknown_id_creates_record:
  fixes e :: env and d :: db and u :: uid and i :: key and body :: members
  defines "entry \<equiv> fold write_member (body @ [(''updatedAt'', JNum (clock e 0))]) Map.empty"
  assumes "child_val (notesRef u d) i = None" and "fault e 0 = None" and "fault e 1 = None"
  shows "put_api_notes_id e u i body d
           = (Response 200 (Obj (withId i entry)),
              set_notes u (notesRef u d @ [(i, entry)]) d)
       \<and> (\<forall>e'. status (fst (put_api_notes_id e' u i body d)) \<noteq> 404)
       \<and> child_val (notesRef u (snd (put_api_notes_id e u i body d))) i = Some entry
       \<and> entry ''updatedAt'' = Some (JNum (clock e 0))"
proof -
  from assms(2) have fresh: "i \<notin> fst ` set (notes_of d u)"
    by (simp add: child_val_def notesRef_def map_of_eq_None_iff)
  from assms(2) have none: "child_val (notes_of d u) i = None"
    by (simp add: notesRef_def)
  note p = put_performed [OF assms(3,4), where u = u and i = i and body = body and d = d]
  from p(2,3) none have entry: "stored entry = entry" "entry ''updatedAt'' = Some (JNum (clock e 0))"
    by (simp_all add: entry_def)
  from p(1) none have "put_api_notes_id e u i body d
      = (Response 200 (Obj (withId i entry)), set_notes u (AList.update i entry (notes_of d u)) d)"
    by (simp add: entry_def)
  then show ?thesis
    using fresh put_status entry
    by (simp add: update_fresh_append notesRef_def child_val_append_fresh)
qed

theorem update_of_unknown_id_creates_record_witness:
  "child_val (notesRef ''u1'' db_empty) ''ghost'' = None
   \<and> fault (env_at 1000 []) 0 = None \<and> fault (env_at 1000 []) 1 = None
   \<and> put_api_notes_id (env_at 1000 []) ''u1'' ''ghost'' [(''done'', JBool True)] db_empty
       = (Response 200 (Obj (withId ''ghost''
            [''done'' \<mapsto> JBool True, ''updatedAt'' \<mapsto> JNum 1000])),
          set_notes ''u1''
            [(''ghost'', [''done'' \<mapsto> JBool True, ''updatedAt'' \<mapsto> JNum 1000])] db_empty)"
  using update_of_unknown_id_creates_record
          [of "''u1''" db_empty "''ghost''" "env_at 1000 []" "[(''done'', JBool True)]"]
  by (simp add: scenario_defs eval_defs write_member_def segments_plain)

text \<open>
  C5 (as amended). For every owner and every active note \<open>old\<close> stored under \<open>i\<close>, an
  Update in which the store performs both calls merges the body into the record. A field
  other than \<open>updatedAt\<close> that no member of the body addresses keeps its value; a member
  addresses the field that the first segment of its key names, so a key with a slash
  writes inside that field. A field that exactly one member addresses, by its plain name,
  holds what the store keeps of the member's value: the value itself when it is a string,
  a number or a boolean, and nothing when it is null. \<open>updatedAt\<close> becomes the reading
  of the clock taken by the request; it is greater than the previous one exactly when
  that reading is. With the body \<open>{done: true}\<close> the text is unchanged and \<open>done\<close> is
  true. No other record, no key and nothing in the trash changes, and the merged record
  is returned with its id.
\<close>

theorem update_merges_fields:
  fixes e :: env and d :: db and u :: uid and i :: key and body :: members and old :: obj
  defines "r \<equiv> fst (put_api_notes_id e u i body d)"
      and "d' \<equiv> snd (put_api_notes_id e u i body d)"
      and "new \<equiv> fold write_member (body @ [(''updatedAt'', JNum (clock e 0))]) old"
  assumes "child_val (notesRef u d) i = Some old" and "fault e 0 = None" and "fault e 1 = None"
  shows "(\<forall>f. f \<noteq> ''updatedAt'' \<and> (\<forall>m \<in> set body. first_segment (fst m) \<noteq> Some f) \<longrightarrow>
              getField (notesRef u d') i f = old f)
       \<and> (\<forall>f v. f \<noteq> ''updatedAt'' \<and> f \<noteq> [] \<and> CHR ''/'' \<notin> set f
                \<and> filter (\<lambda>m. first_segment (fst m) = Some f) body = [(f, v)] \<longrightarrow>
              getField (notesRef u d') i f = keep v)
       \<and> getField (notesRef u d') i ''updatedAt'' = Some (JNum (clock e 0))
       \<and> (\<forall>t. old ''updatedAt'' = Some (JNum t) \<longrightarrow>
              (t < clock e 0) =
              (\<exists>t'. getField (notesRef u d') i ''updatedAt'' = Some (JNum t') \<and> t < t'))
       \<and> (body = [(''done'', JBool True)] \<longrightarrow>
              getField (notesRef u d') i ''text'' = old ''text''
            \<and> getField (notesRef u d') i ''done'' = Some (JBool True))
       \<and> (\<forall>k. k \<noteq> i \<longrightarrow> child_val (notesRef u d') k = child_val (notesRef u d) k)
       \<and> map fst (notesRef u d') = map fst (notesRef u d)
       \<and> trash_of d' = trash_of d
       \<and> r = Response 200 (Obj (withId i new))
       \<and> child_val (notesRef u d') i = Some new"
proof -
  from assms(4) have old: "child_val (notes_of d u) i = Some old"
    by (simp add: notesRef_def)
  note p = put_performed [OF assms(5,6), where u = u and i = i and body = body and d = d]
  from p(1) old have res: "put_api_notes_id e u i body d
      = (Response 200 (Obj (withId i new)), set_notes u (AList.update i new (notes_of d u)) d)"
    by (simp add: new_def)
  from p(2,3) old have new: "stored new = new" "new ''updatedAt'' = Some (JNum (clock e 0))"
    by (simp_all add: new_def)
  have at_i: "child_val (notesRef u d') i = Some new"
    by (simp add: d'_def res notesRef_def child_val_update new)
  then have fld: "getField (notesRef u d') i f = new f" for f
    by (simp add: getField_def)
  from old have "i \<in> fst ` set (notes_of d u)"
    by (rule child_val_present)
  then have keys: "map fst (notesRef u d') = map fst (notesRef u d)"
    by (simp add: d'_def res notesRef_def AList.update_keys)
  have others: "k \<noteq> i \<Longrightarrow> child_val (notesRef u d') k = child_val (notesRef u d) k" for k
    by (simp add: d'_def res notesRef_def child_val_update)
  have absent: "new f = old f"
    if "f \<noteq> ''updatedAt''" and "\<forall>m \<in> set body. first_segment (fst m) \<noteq> Some f" for f
    unfolding new_def using that
    by (intro fold_write_other) (auto simp: first_segment_plain)
  have given: "new f = keep v"
    if "f \<noteq> ''updatedAt''" and "f \<noteq> []" and "CHR ''/'' \<notin> set f"
      and "filter (\<lambda>m. first_segment (fst m) = Some f) body = [(f, v)]" for f v
    unfolding new_def using that
    by (intro fold_write_single) (simp_all add: first_segment_plain segments_plain)
  have flag: "new ''text'' = old ''text'' \<and> new ''done'' = Some (JBool True)"
    if "body = [(''done'', JBool True)]"
    using that by (simp add: new_def write_member_def segments_plain)
  show ?thesis
    unfolding fld
    using absent given new(2) flag others keys at_i
    by (simp add: r_def res) (simp add: d'_def res)
qed

text \<open>
  Two updates of the note \<open>n1\<close> that read the clock in the same millisecond, 1500: after
  the first, \<open>updatedAt\<close> is 1500; the second, with the body \<open>{done: true}\<close>, is
  answered 200 and leaves \<open>updatedAt\<close> at 1500, equal to the previous value and not
  greater.
\<close>

theorem update_same_millisecond_counterexample:
  "getField (notesRef ''u1'' db_edited) ''n1'' ''updatedAt'' = Some (JNum 1500)
   \<and> status (fst (put_api_notes_id (env_at 1500 []) ''u1'' ''n1'' [(''done'', JBool True)]
        db_edited)) = 200
   \<and> getField (notesRef ''u1'' (snd (put_api_notes_id (env_at 1500 []) ''u1'' ''n1''
        [(''done'', JBool True)] db_edited))) ''n1'' ''updatedAt'' = Some (JNum 1500)"
  by (simp add: db_edited_def scenario_defs eval_defs write_member_def segments_plain
      stored_field)

theorem update_merges_fields_witness:
  "child_val (notesRef ''u1'' db_created) ''n1'' \<noteq> None
   \<and> fault (env_at 1500 []) 0 = None \<and> fault (env_at 1500 []) 1 = None
   \<and> getField (notesRef ''u1'' db_created) ''n1'' ''text'' = Some (JStr ''buy milk'')
   \<and> getField (notesRef ''u1'' db_created) ''n1'' ''updatedAt'' = Some (JNum 1000)
   \<and> getField (notesRef ''u1'' (snd (put_api_notes_id (env_at 1500 []) ''u1'' ''n1''
        [(''done'', JBool True)] db_created))) ''n1'' ''text'' = Some (JStr ''buy milk'')
   \<and> getField (notesRef ''u1'' (snd (put_api_notes_id (env_at 1500 []) ''u1'' ''n1''
        [(''done'', JBool True)] db_created))) ''n1'' ''done'' = Some (JBool True)
   \<and> getField (notesRef ''u1'' (snd (put_api_notes_id (env_at 1500 []) ''u1'' ''n1''
        [(''done'', JBool True)] db_created))) ''n1'' ''updatedAt'' = Some (JNum 1500)"
proof -
  let ?old = "stored (new_note (env_at 1000 ''n1'') [(''text'', JStr ''buy milk'')])"
  have old: "child_val (notesRef ''u1'' db_created) ''n1'' = Some ?old"
    by (simp add: scenario_defs post_api_notes_def store_defs child_val_def Let_def env_at_def)
  have ok: "fault (env_at 1500 []) 0 = None" "fault (env_at 1500 []) 1 = None"
    by (simp_all add: env_at_def)
  note t = update_merges_fields [OF old ok, where body = "[(''done'', JBool True)]"]
  have before: "getField (notesRef ''u1'' db_created) ''n1'' ''text'' = Some (JStr ''buy milk'')"
    "getField (notesRef ''u1'' db_created) ''n1'' ''updatedAt'' = Some (JNum 1000)"
    by (simp_all add: getField_def old stored_field new_note_def get_prop_def or_else_def
        env_at_def)
  from t have "getField (notesRef ''u1'' (snd (put_api_notes_id (env_at 1500 []) ''u1'' ''n1''
        [(''done'', JBool True)] db_created))) ''n1'' ''text'' = ?old ''text''"
    and "getField (notesRef ''u1'' (snd (put_api_notes_id (env_at 1500 []) ''u1'' ''n1''
        [(''done'', JBool True)] db_created))) ''n1'' ''done'' = Some (JBool True)"
    and "getField (notesRef ''u1'' (snd (put_api_notes_id (env_at 1500 []) ''u1'' ''n1''
        [(''done'', JBool True)] db_created))) ''n1'' ''updatedAt''
          = Some (JNum (clock (env_at 1500 []) 0))"
    by blast+
  with old ok before show ?thesis
    by (simp add: stored_field new_note_def get_prop_def or_else_def env_at_def)
qed

text \<open>
  A member whose key has a slash changes a field that the body does not name: with the
  body \<open>{"text/x": 1}\<close> the text of the note \<open>n1\<close> becomes the object \<open>{x: 1}\<close>.
\<close>

lemma update_path_key_example:
  "getField (notesRef ''u1'' (snd (put_api_notes_id (env_at 1500 []) ''u1'' ''n1''
        [(''text/x'', JNum 1)] db_created))) ''n1'' ''text'' = Some (JObj [(''x'', JNum 1)])"
  by (simp add: scenario_defs eval_defs write_member_def segments_def str_split_def stored_field)

text \<open>
  C10 (as amended). For every Update of an existing note in which the store performs
  both calls, the persisted \<open>updatedAt\<close> is the reading of the server's clock taken by
  the request, whatever the body gives for \<open>updatedAt\<close>: the outcome of the request is
  the same when every member of the body that addresses \<open>updatedAt\<close> is left out. A
  field other than \<open>updatedAt\<close> that exactly one member addresses, by its plain name
  (\<open>createdAt\<close> included), is stored with the value the client sent when that value is
  a string, a number or a boolean, and is removed from the record when the value is null;
  the response shows the same.
\<close>

theorem update_stamps_server_time:
  fixes e :: env and d :: db and u :: uid and i :: key and body :: members and old :: obj
  defines "r \<equiv> fst (put_api_notes_id e u i body d)"
      and "d' \<equiv> snd (put_api_notes_id e u i body d)"
  assumes "child_val (notesRef u d) i = Some old" and "fault e 0 = None" and "fault e 1 = None"
  shows "getField (notesRef u d') i ''updatedAt'' = Some (JNum (clock e 0))
       \<and> put_api_notes_id e u i
            (filter (\<lambda>m. first_segment (fst m) \<noteq> Some ''updatedAt'') body) d
           = put_api_notes_id e u i body d
       \<and> (\<forall>f v. f \<noteq> ''updatedAt'' \<and> f \<noteq> [] \<and> CHR ''/'' \<notin> set f
                \<and> filter (\<lambda>m. first_segment (fst m) = Some f) body = [(f, v)] \<longrightarrow>
              (scalar v \<longrightarrow> getField (notesRef u d') i f = Some v)
            \<and> (v = JNull \<longrightarrow> getField (notesRef u d') i f = None))
       \<and> (\<forall>v. filter (\<lambda>m. first_segment (fst m) = Some ''createdAt'') body = [(''createdAt'', v)]
              \<and> scalar v \<longrightarrow>
              getField (notesRef u d') i ''createdAt'' = Some v)
       \<and> (\<exists>p. r = Response 200 (Obj p)
              \<and> p ''updatedAt'' = Some (JNum (clock e 0))
              \<and> (\<forall>f v. f \<noteq> ''updatedAt'' \<and> f \<noteq> ''id'' \<and> f \<noteq> [] \<and> CHR ''/'' \<notin> set f
                     \<and> filter (\<lambda>m. first_segment (fst m) = Some f) body = [(f, v)] \<longrightarrow>
                     (scalar v \<longrightarrow> p f = Some v) \<and> (v = JNull \<longrightarrow> p f = None)))"
proof -
  define new where "new = fold write_member (body @ [(''updatedAt'', JNum (clock e 0))]) old"
  from assms(3) have old: "child_val (notes_of d u) i = Some old"
    by (simp add: notesRef_def)
  note p = put_performed [OF assms(4,5), where u = u and i = i and body = body and d = d]
  from p(1) old have res: "put_api_notes_id e u i body d
      = (Response 200 (Obj (withId i new)), set_notes u (AList.update i new (notes_of d u)) d)"
    by (simp add: new_def)
  from p(2,3) old have new: "stored new = new" "new ''updatedAt'' = Some (JNum (clock e 0))"
    by (simp_all add: new_def)
  have fld: "getField (notesRef u d') i f = new f" for f
    by (simp add: d'_def res notesRef_def getField_def child_val_update new)
  have given: "new f = keep v"
    if "f \<noteq> ''updatedAt''" and "f \<noteq> []" and "CHR ''/'' \<notin> set f"
      and "filter (\<lambda>m. first_segment (fst m) = Some f) body = [(f, v)]" for f v
    unfolding new_def using that
    by (intro fold_write_single) (simp_all add: first_segment_plain segments_plain)
  have plain: "(scalar v \<longrightarrow> new f = Some v) \<and> (v = JNull \<longrightarrow> new f = None)"
    if "f \<noteq> ''updatedAt''" and "f \<noteq> []" and "CHR ''/'' \<notin> set f"
      and "filter (\<lambda>m. first_segment (fst m) = Some f) body = [(f, v)]" for f v
    using given [OF that] by (auto simp: keep_scalar)
  have shown: "withId i new f = new f" if "f \<noteq> ''id''" for f
    using that by (simp add: withId_def map_add_def split: option.split)
  have resp: "withId i new ''updatedAt'' = Some (JNum (clock e 0))
      \<and> (\<forall>f v. f \<noteq> ''updatedAt'' \<and> f \<noteq> ''id'' \<and> f \<noteq> [] \<and> CHR ''/'' \<notin> set f
             \<and> filter (\<lambda>m. first_segment (fst m) = Some f) body = [(f, v)] \<longrightarrow>
             (scalar v \<longrightarrow> withId i new f = Some v) \<and> (v = JNull \<longrightarrow> withId i new f = None))"
    using plain new(2) by (simp add: shown)
  have r: "r = Response 200 (Obj (withId i new))"
    by (simp add: r_def res)
  have created: "getField (notesRef u d') i ''createdAt'' = Some v"
    if "filter (\<lambda>m. first_segment (fst m) = Some ''createdAt'') body = [(''createdAt'', v)]"
      and "scalar v" for v
    using plain [of "''createdAt''" v] that by (simp add: fld)
  from r resp have "\<exists>p. r = Response 200 (Obj p)
      \<and> p ''updatedAt'' = Some (JNum (clock e 0))
      \<and> (\<forall>f v. f \<noteq> ''updatedAt'' \<and> f \<noteq> ''id'' \<and> f \<noteq> [] \<and> CHR ''/'' \<notin> set f
             \<and> filter (\<lambda>m. first_segment (fst m) = Some f) body = [(f, v)] \<longrightarrow>
             (scalar v \<longrightarrow> p f = Some v) \<and> (v = JNull \<longrightarrow> p f = None))"
    by blast
  moreover from plain have "\<forall>f v. f \<noteq> ''updatedAt'' \<and> f \<noteq> [] \<and> CHR ''/'' \<notin> set f
      \<and> filter (\<lambda>m. first_segment (fst m) = Some f) body = [(f, v)] \<longrightarrow>
      (scalar v \<longrightarrow> getField (notesRef u d') i f = Some v)
      \<and> (v = JNull \<longrightarrow> getField (notesRef u d') i f = None)"
    unfolding fld by blast
  moreover from created have "\<forall>v. filter (\<lambda>m. first_segment (fst m) = Some ''createdAt'') body
        = [(''createdAt'', v)] \<and> scalar v \<longrightarrow>
      getField (notesRef u d') i ''createdAt'' = Some v"
    by blast
  moreover have "getField (notesRef u d') i ''updatedAt'' = Some (JNum (clock e 0))"
    by (simp add: fld new)
  ultimately show ?thesis
    using put_without_updatedAt [of e u i body d] by blast
qed

text \<open>
  An Update of the note \<open>n1\<close> with the body \<open>{text: null}\<close> is answered 200; the
  record, which had the text \<open>buy milk\<close>, has no \<open>text\<close> afterwards, and neither has
  the response: the null was not merged into the record as given.
\<close>

theorem update_null_removes_field_counterexample:
  "getField (notesRef ''u1'' db_created) ''n1'' ''text'' = Some (JStr ''buy milk'')
   \<and> fst (put_api_notes_id (env_at 1500 []) ''u1'' ''n1'' [(''text'', JNull)] db_created)
       = Response 200 (Obj (withId ''n1''
           [''createdAt'' \<mapsto> JNum 1000, ''updatedAt'' \<mapsto> JNum 1500]))
   \<and> getField (notesRef ''u1'' (snd (put_api_notes_id (env_at 1500 []) ''u1'' ''n1''
        [(''text'', JNull)] db_created))) ''n1'' ''text'' = None"
  by (simp add: scenario_defs eval_defs write_member_def segments_plain stored_field fun_eq_iff)

theorem update_stamps_server_time_witness:
  "child_val (notesRef ''u1'' db_created) ''n1'' \<noteq> None
   \<and> fault (env_at 1500 []) 0 = None \<and> fault (env_at 1500 []) 1 = None
   \<and> getField (notesRef ''u1'' db_created) ''n1'' ''createdAt'' = Some (JNum 1000)
   \<and> getField (notesRef ''u1'' (snd (put_api_notes_id (env_at 1500 []) ''u1'' ''n1''
        [(''updatedAt'', JNum 7), (''createdAt'', JNum 8)] db_created)))
        ''n1'' ''updatedAt'' = Some (JNum 1500)
   \<and> getField (notesRef ''u1'' (snd (put_api_notes_id (env_at 1500 []) ''u1'' ''n1''
        [(''updatedAt'', JNum 7), (''createdAt'', JNum 8)] db_created)))
        ''n1'' ''createdAt'' = Some (JNum 8)"
proof -
  let ?old = "stored (new_note (env_at 1000 ''n1'') [(''text'', JStr ''buy milk'')])"
  let ?body = "[(''updatedAt'', JNum 7), (''createdAt'', JNum 8)]"
  have old: "child_val (notesRef ''u1'' db_created) ''n1'' = Some ?old"
    by (simp add: scenario_defs post_api_notes_def store_defs child_val_def Let_def env_at_def)
  have ok: "fault (env_at 1500 []) 0 = None" "fault (env_at 1500 []) 1 = None"
    by (simp_all add: env_at_def)
  have only: "filter (\<lambda>m. first_segment (fst m) = Some ''createdAt'') ?body = [(''createdAt'', JNum 8)]"
    by (simp add: first_segment_plain)
  note t = update_stamps_server_time [OF old ok, where body = ?body]
  from t only have "getField (notesRef ''u1'' (snd (put_api_notes_id (env_at 1500 []) ''u1'' ''n1''
        ?body db_created))) ''n1'' ''createdAt'' = Some (JNum 8)"
    by (metis scalar.simps(2))
  moreover from t have "getField (notesRef ''u1'' (snd (put_api_notes_id (env_at 1500 []) ''u1''
        ''n1'' ?body db_created))) ''n1'' ''updatedAt'' = Some (JNum (clock (env_at 1500 []) 0))"
    by blast
  moreover have "getField (notesRef ''u1'' db_created) ''n1'' ''createdAt'' = Some (JNum 1000)"
    by (simp add: getField_def old stored_field new_note_def env_at_def)
  ultimately show ?thesis
    using old ok by (simp add: env_at_def)
qed

section \<open>Create\<close>

lemma new_note_fields:
  "new_note e body ''text'' = Some (or_else (get_prop body ''text'') (JStr []))"
  "new_note e body ''file'' = Some (or_else (get_prop body ''file'') JNull)"
  "new_note e body ''createdAt'' = Some (JNum (clock e 0))"
  "new_note e body ''updatedAt'' = Some (JNum (clock e 1))"
  "new_note e body ''id'' = None"
  by (simp_all add: new_note_def)

lemma dom_new_note: "dom (new_note e body) = {''text'', ''file'', ''createdAt'', ''updatedAt''}"
  by (auto simp: new_note_def)

lemma post_performed:
  "fault e 0 = None \<Longrightarrow>
   post_api_notes e u body d =
     (Response 200 (Obj (withId (pushKey e) (new_note e body))),
      set_notes u (AList.update (pushKey e) (stored (new_note e body)) (notes_of d u)) d)"
  by (simp add: post_api_notes_def Let_def store_defs)

text \<open>
  C7 (as amended). For every Create in which the store performs the push and generates a
  key that the owner's active collection does not use yet, the collection gains exactly
  one entry, under the generated key: what the store keeps of the note. The other owners
  and the trash are unchanged; the response is the full note together with that key as
  its id. The note's \<open>createdAt\<close> is the first and its \<open>updatedAt\<close> the second reading
  of the clock taken while the note is built, in the response and in the store: the two
  are equal exactly when the two readings are.
\<close>

theorem create_adds_one_note:
  fixes e :: env and d :: db and u :: uid and body :: members
  defines "note \<equiv> new_note e body"
      and "d' \<equiv> snd (post_api_notes e u body d)"
  assumes "fault e 0 = None" and "pushKey e \<notin> fst ` set (notesRef u d)"
  shows "fst (post_api_notes e u body d) = Response 200 (Obj (withId (pushKey e) note))
       \<and> withId (pushKey e) note ''id'' = Some (JStr (pushKey e))
       \<and> (\<forall>f. f \<noteq> ''id'' \<longrightarrow> withId (pushKey e) note f = note f)
       \<and> notesRef u d' = notesRef u d @ [(pushKey e, stored note)]
       \<and> child_val (notesRef u d') (pushKey e) = Some (stored note)
       \<and> (\<forall>v. v \<noteq> u \<longrightarrow> notes_of d' v = notes_of d v)
       \<and> trash_of d' = trash_of d
       \<and> note ''createdAt'' = Some (JNum (clock e 0))
       \<and> note ''updatedAt'' = Some (JNum (clock e 1))
       \<and> stored note ''createdAt'' = Some (JNum (clock e 0))
       \<and> stored note ''updatedAt'' = Some (JNum (clock e 1))
       \<and> (note ''createdAt'' = note ''updatedAt'') = (clock e 0 = clock e 1)
       \<and> (stored note ''createdAt'' = stored note ''updatedAt'') = (clock e 0 = clock e 1)"
proof -
  have rest: "f \<noteq> ''id'' \<Longrightarrow> withId (pushKey e) note f = note f" for f
    by (simp add: withId_def map_add_def split: option.split)
  have shown: "withId (pushKey e) note ''id'' = Some (JStr (pushKey e))"
    by (simp add: withId_def map_add_def note_def new_note_fields)
  show ?thesis
    using assms(3,4) rest shown
    by (simp add: post_performed d'_def notesRef_def update_fresh_append child_val_append_fresh
        note_def [symmetric])
      (simp add: note_def new_note_fields stored_field)
qed

text \<open>
  When the clock advances from 1000 to 1001 between the two readings, the persisted and
  the returned note have \<open>createdAt\<close> 1000 and \<open>updatedAt\<close> 1001.
\<close>

theorem create_clock_ticks_counterexample:
  "fst (post_api_notes (env_tick 1000 ''n1'') ''u1'' [(''text'', JStr ''buy milk'')] db_empty)
     = Response 200 (Obj (withId ''n1''
         [''text'' \<mapsto> JStr ''buy milk'', ''file'' \<mapsto> JNull, ''createdAt'' \<mapsto> JNum 1000,
          ''updatedAt'' \<mapsto> JNum 1001]))
   \<and> getField (notesRef ''u1'' (snd (post_api_notes (env_tick 1000 ''n1'') ''u1''
        [(''text'', JStr ''buy milk'')] db_empty))) ''n1'' ''createdAt'' = Some (JNum 1000)
   \<and> getField (notesRef ''u1'' (snd (post_api_notes (env_tick 1000 ''n1'') ''u1''
        [(''text'', JStr ''buy milk'')] db_empty))) ''n1'' ''updatedAt'' = Some (JNum 1001)"
  by (simp add: scenario_defs eval_defs env_tick_def stored_field)

theorem create_adds_one_note_witness:
  "fault (env_at 1100 ''n2'') 0 = None
   \<and> pushKey (env_at 1100 ''n2'') \<notin> fst ` set (notesRef ''u1'' db_created)
   \<and> map fst (notesRef ''u1'' db_created) = [''n1'']
   \<and> map fst (notesRef ''u1'' db_two) = [''n1'', ''n2'']
   \<and> getField (notesRef ''u1'' db_two) ''n2'' ''createdAt'' = Some (JNum 1100)
   \<and> getField (notesRef ''u1'' db_two) ''n2'' ''updatedAt'' = Some (JNum 1100)
   \<and> fst (post_api_notes (env_at 1100 ''n2'') ''u1'' [(''text'', JStr ''call mum'')] db_created)
       = Response 200 (Obj (withId ''n2''
           [''text'' \<mapsto> JStr ''call mum'', ''file'' \<mapsto> JNull, ''createdAt'' \<mapsto> JNum 1100,
            ''updatedAt'' \<mapsto> JNum 1100]))"
  using create_adds_one_note
          [of "env_at 1100 ''n2''" "''u1''" db_created "[(''text'', JStr ''call mum'')]"]
  by (simp add: db_two_def scenario_defs eval_defs stored_field)

text \<open>
  C9 (as amended). For every Create in which the store performs the push, the note that
  is built and returned has exactly the fields \<open>text\<close>, \<open>file\<close>, \<open>createdAt\<close> and
  \<open>updatedAt\<close>. Its \<open>text\<close> is the empty string when the body has no \<open>text\<close> or a
  falsy one, and the body's \<open>text\<close> otherwise; its \<open>file\<close> is null when the body has no
  \<open>file\<close> or a falsy one, and the body's \<open>file\<close> otherwise; the two timestamps are
  readings of the server's clock. The persisted note has no other field than these four
  and holds what the store keeps of each: the two timestamps always, a \<open>text\<close> or a
  \<open>file\<close> that is a string, a number or a boolean as it is, and no \<open>file\<close> when the
  note's \<open>file\<close> is null. Two bodies that agree on \<open>text\<close> and \<open>file\<close> give the same
  response and the same store: no other field of the body (\<open>id\<close>, \<open>createdAt\<close>,
  \<open>updatedAt\<close>, ...) has any effect.
\<close>

theorem create_persists_kept_fields:
  fixes e :: env and d :: db and u :: uid and body :: members
  defines "note \<equiv> new_note e body"
      and "d' \<equiv> snd (post_api_notes e u body d)"
  assumes "fault e 0 = None"
  shows "fst (post_api_notes e u body d) = Response 200 (Obj (withId (pushKey e) note))
       \<and> dom note = {''text'', ''file'', ''createdAt'', ''updatedAt''}
       \<and> (get_prop body ''text'' = None \<longrightarrow> note ''text'' = Some (JStr []))
       \<and> (\<forall>x. get_prop body ''text'' = Some x \<longrightarrow>
              note ''text'' = Some (if truthy x then x else JStr []))
       \<and> (get_prop body ''file'' = None \<longrightarrow> note ''file'' = Some JNull)
       \<and> (\<forall>x. get_prop body ''file'' = Some x \<longrightarrow>
              note ''file'' = Some (if truthy x then x else JNull))
       \<and> note ''createdAt'' = Some (JNum (clock e 0))
       \<and> note ''updatedAt'' = Some (JNum (clock e 1))
       \<and> child_val (notesRef u d') (pushKey e) = Some (stored note)
       \<and> dom (stored note) \<subseteq> {''text'', ''file'', ''createdAt'', ''updatedAt''}
       \<and> stored note ''createdAt'' = Some (JNum (clock e 0))
       \<and> stored note ''updatedAt'' = Some (JNum (clock e 1))
       \<and> (\<forall>x. note ''text'' = Some x \<longrightarrow> stored note ''text'' = keep x)
       \<and> (\<forall>x. note ''file'' = Some x \<longrightarrow> stored note ''file'' = keep x)
       \<and> (\<forall>x. note ''text'' = Some x \<and> scalar x \<longrightarrow> stored note ''text'' = Some x)
       \<and> (\<forall>x. note ''file'' = Some x \<and> scalar x \<longrightarrow> stored note ''file'' = Some x)
       \<and> (note ''file'' = Some JNull \<longrightarrow> stored note ''file'' = None)
       \<and> (\<forall>body'. get_prop body' ''text'' = get_prop body ''text''
                 \<and> get_prop body' ''file'' = get_prop body ''file'' \<longrightarrow>
              post_api_notes e u body' d = post_api_notes e u body d)"
proof -
  have same: "get_prop body' ''text'' = get_prop body ''text''
      \<and> get_prop body' ''file'' = get_prop body ''file'' \<Longrightarrow>
      post_api_notes e u body' d = post_api_notes e u body d" for body'
    by (simp add: post_api_notes_def new_note_def)
  have resp: "fst (post_api_notes e u body d) = Response 200 (Obj (withId (pushKey e) note))"
    and persisted: "child_val (notesRef u d') (pushKey e) = Some (stored note)"
    using assms(3)
    by (simp_all add: post_performed note_def d'_def notesRef_def child_val_update)
  have built: "dom note = {''text'', ''file'', ''createdAt'', ''updatedAt''}"
    "get_prop body ''text'' = None \<longrightarrow> note ''text'' = Some (JStr [])"
    "\<forall>x. get_prop body ''text'' = Some x \<longrightarrow> note ''text'' = Some (if truthy x then x else JStr [])"
    "get_prop body ''file'' = None \<longrightarrow> note ''file'' = Some JNull"
    "\<forall>x. get_prop body ''file'' = Some x \<longrightarrow> note ''file'' = Some (if truthy x then x else JNull)"
    "note ''createdAt'' = Some (JNum (clock e 0))"
    "note ''updatedAt'' = Some (JNum (clock e 1))"
    by (simp_all add: note_def new_note_fields dom_new_note or_else_def)
  have kept: "dom (stored note) \<subseteq> {''text'', ''file'', ''createdAt'', ''updatedAt''}"
    "stored note ''createdAt'' = Some (JNum (clock e 0))"
    "stored note ''updatedAt'' = Some (JNum (clock e 1))"
    "\<forall>x. note ''text'' = Some x \<longrightarrow> stored note ''text'' = keep x"
    "\<forall>x. note ''file'' = Some x \<longrightarrow> stored note ''file'' = keep x"
    "\<forall>x. note ''text'' = Some x \<and> scalar x \<longrightarrow> stored note ''text'' = Some x"
    "\<forall>x. note ''file'' = Some x \<and> scalar x \<longrightarrow> stored note ''file'' = Some x"
    "note ''file'' = Some JNull \<longrightarrow> stored note ''file'' = None"
    using dom_stored [of "note"] built(1,6,7)
    by (simp_all add: stored_field keep_scalar)
  from resp persisted built kept same show ?thesis
    by blast
qed

text \<open>
  A Create with the body \<open>{text: "buy milk"}\<close> returns a note whose \<open>file\<close> is null,
  and the persisted note consists of \<open>text\<close>, \<open>createdAt\<close> and \<open>updatedAt\<close>: it has no
  field \<open>file\<close>.
\<close>

theorem create_drops_null_file_counterexample:
  "fst (post_api_notes (env_at 1000 ''n1'') ''u1'' [(''text'', JStr ''buy milk'')] db_empty)
     = Response 200 (Obj (withId ''n1''
         [''text'' \<mapsto> JStr ''buy milk'', ''file'' \<mapsto> JNull, ''createdAt'' \<mapsto> JNum 1000,
          ''updatedAt'' \<mapsto> JNum 1000]))
   \<and> child_val (notesRef ''u1'' db_created) ''n1''
       = Some [''text'' \<mapsto> JStr ''buy milk'', ''createdAt'' \<mapsto> JNum 1000,
               ''updatedAt'' \<mapsto> JNum 1000]
   \<and> getField (notesRef ''u1'' db_created) ''n1'' ''file'' = None"
  by (simp add: scenario_defs eval_defs stored_field fun_eq_iff)

theorem create_persists_kept_fields_witness:
  "fault (env_at 1000 ''n1'') 0 = None
   \<and> post_api_notes (env_at 1000 ''n1'') ''u1''
        [(''text'', JStr ''buy milk''), (''id'', JStr ''mine''), (''createdAt'', JNum 5),
         (''updatedAt'', JNum 6), (''done'', JBool True)] db_empty
       = post_api_notes (env_at 1000 ''n1'') ''u1'' [(''text'', JStr ''buy milk'')] db_empty
   \<and> getField (notesRef ''u1'' db_created) ''n1'' ''text'' = Some (JStr ''buy milk'')
   \<and> getField (notesRef ''u1'' db_created) ''n1'' ''file'' = None
   \<and> getField (notesRef ''u1'' db_created) ''n1'' ''createdAt'' = Some (JNum 1000)
   \<and> getField (notesRef ''u1'' db_created) ''n1'' ''updatedAt'' = Some (JNum 1000)
   \<and> getField (notesRef ''u1'' db_created) ''n1'' ''id'' = None
   \<and> getField (notesRef ''u1'' db_created) ''n1'' ''done'' = None
   \<and> getField (notesRef ''u1''
        (snd (post_api_notes (env_at 1000 ''n1'') ''u1'' [(''text'', JNum 0)] db_empty)))
        ''n1'' ''text'' = Some (JStr [])
   \<and> getField (notesRef ''u1''
        (snd (post_api_notes (env_at 1000 ''n1'') ''u1''
               [(''file'', JObj [(''name'', JStr ''a.pdf''), (''url'', JStr ''u'')])] db_empty)))
        ''n1'' ''file'' = Some (JObj [(''name'', JStr ''a.pdf''), (''url'', JStr ''u'')])"
proof -
  have ok: "fault (env_at 1000 ''n1'') 0 = None"
    by (simp add: env_at_def)
  note t = create_persists_kept_fields [OF ok, where u = "''u1''" and d = db_empty
      and body = "[(''text'', JStr ''buy milk''), (''id'', JStr ''mine''), (''createdAt'', JNum 5),
         (''updatedAt'', JNum 6), (''done'', JBool True)]"]
  have "get_prop [(''text'', JStr ''buy milk'')] ''text''
        = get_prop [(''text'', JStr ''buy milk''), (''id'', JStr ''mine''), (''createdAt'', JNum 5),
            (''updatedAt'', JNum 6), (''done'', JBool True)] ''text''"
    and "get_prop [(''text'', JStr ''buy milk'')] ''file''
        = get_prop [(''text'', JStr ''buy milk''), (''id'', JStr ''mine''), (''createdAt'', JNum 5),
            (''updatedAt'', JNum 6), (''done'', JBool True)] ''file''"
    by (simp_all add: get_prop_def)
  with t have "post_api_notes (env_at 1000 ''n1'') ''u1'' [(''text'', JStr ''buy milk'')] db_empty
      = post_api_notes (env_at 1000 ''n1'') ''u1''
        [(''text'', JStr ''buy milk''), (''id'', JStr ''mine''), (''createdAt'', JNum 5),
         (''updatedAt'', JNum 6), (''done'', JBool True)] db_empty"
    by blast
  then show ?thesis
    by (simp add: scenario_defs eval_defs stored_field)
qed

section \<open>Owners\<close>

lemmas handler_defs = get_api_notes_def post_api_notes_def put_api_notes_id_def
  delete_api_notes_id_def get_api_trash_def post_api_trash_restore_id_def
  delete_api_trash_id_def

lemma handle_other_owner:
  "b \<noteq> u \<Longrightarrow>
   notes_of (snd (handle e u r d)) b = notes_of d b
   \<and> trash_of (snd (handle e u r d)) b = trash_of d b"
  by (cases r) (simp_all add: handle_def handler_defs Let_def split: option.split)

lemma handle_reads_owner_only:
  assumes "notes_of d2 u = notes_of d u" and "trash_of d2 u = trash_of d u"
  shows "fst (handle e u r d2) = fst (handle e u r d)
       \<and> notes_of (snd (handle e u r d2)) u = notes_of (snd (handle e u r d)) u
       \<and> trash_of (snd (handle e u r d2)) u = trash_of (snd (handle e u r d)) u"
  using assms
  by (cases r)
    (simp_all add: handle_def handler_defs store_defs Let_def split: option.split)

lemma middleware_owner:
  assumes "verifyTokenMiddleware verifyIdToken header = Inr usr"
  shows "\<exists>tok dec. verifyIdToken tok = Some dec \<and> uid usr = decoded_uid dec"
  using assms
  by (fastforce simp: verifyTokenMiddleware_def Let_def
      split: if_splits option.splits list.splits)

text \<open>
  C8. Every request acts only on the collections of the owner that the verified
  credential yields. A request whose credential is missing or is not verified is answered
  401 and changes nothing. Otherwise the owner is the uid of the token that the verifier
  decoded, and the request is handled for that owner whatever its path and its body hold:
  the active notes and the trash of every other owner are unchanged, and the response and
  the owner's new collections are the same in any two stores that agree on the owner's
  collections, so they depend on those collections and on the inputs of the operation
  only.
\<close>

text \<open>
  C8. Every request acts only on the collections of the owner that the verified
  credential yields. A request whose credential is missing or is not verified is answered
  401 and changes nothing. Otherwise the owner is the uid of the token that the verifier
  decoded, and the request is handled for that owner whatever its path and its body hold:
  the active notes and the trash of every other owner are unchanged, and the response and
  the owner's new collections are the same in any two stores that agree on the owner's
  collections, so they depend on those collections and on the inputs of the operation
  only.
\<close>

theorem owner_isolation:
  fixes verifyIdToken :: "string \<Rightarrow> decoded option" and e :: env and req :: request and d :: db
  defines "auth \<equiv> verifyTokenMiddleware verifyIdToken (authorization req)"
  shows "(\<forall>r. auth = Inl r \<longrightarrow> status r = 401 \<and> api verifyIdToken e req d = (r, d))
       \<and> (\<forall>usr. auth = Inr usr \<longrightarrow>
              (\<exists>tok dec. verifyIdToken tok = Some dec \<and> uid usr = decoded_uid dec)
            \<and> api verifyIdToken e req d = handle e (uid usr) (route req) d
            \<and> (\<forall>b. b \<noteq> uid usr \<longrightarrow>
                   notes_of (snd (api verifyIdToken e req d)) b = notes_of d b
                 \<and> trash_of (snd (api verifyIdToken e req d)) b = trash_of d b)
            \<and> (\<forall>d2. notes_of d2 (uid usr) = notes_of d (uid usr)
                     \<and> trash_of d2 (uid usr) = trash_of d (uid usr) \<longrightarrow>
                   fst (api verifyIdToken e req d2) = fst (api verifyIdToken e req d)
                 \<and> notes_of (snd (api verifyIdToken e req d2)) (uid usr)
                     = notes_of (snd (api verifyIdToken e req d)) (uid usr)
                 \<and> trash_of (snd (api verifyIdToken e req d2)) (uid usr)
                     = trash_of (snd (api verifyIdToken e req d)) (uid usr)))"
proof (intro conjI allI impI)
  fix r assume "auth = Inl r"
  then show "status r = 401" and "api verifyIdToken e req d = (r, d)"
    by (auto simp: auth_def api_def verifyTokenMiddleware_def Let_def
        split: if_splits option.splits list.splits)
next
  fix usr assume a: "auth = Inr usr"
  then show "\<exists>tok dec. verifyIdToken tok = Some dec \<and> uid usr = decoded_uid dec"
    unfolding auth_def by (rule middleware_owner)
  from a have api: "api verifyIdToken e req d' = handle e (uid usr) (route req) d'" for d'
    by (simp add: api_def auth_def)
  show "api verifyIdToken e req d = handle e (uid usr) (route req) d"
    by (rule api)
  { fix b assume "b \<noteq> uid usr"
    then show "notes_of (snd (api verifyIdToken e req d)) b = notes_of d b"
      and "trash_of (snd (api verifyIdToken e req d)) b = trash_of d b"
      by (simp_all add: api handle_other_owner) }
  { fix d2 :: db
    assume "notes_of d2 (uid usr) = notes_of d (uid usr)
          \<and> trash_of d2 (uid usr) = trash_of d (uid usr)"
    then have "fst (handle e (uid usr) (route req) d2) = fst (handle e (uid usr) (route req) d)
        \<and> notes_of (snd (handle e (uid usr) (route req) d2)) (uid usr)
             = notes_of (snd (handle e (uid usr) (route req) d)) (uid usr)
        \<and> trash_of (snd (handle e (uid usr) (route req) d2)) (uid usr)
             = trash_of (snd (handle e (uid usr) (route req) d)) (uid usr)"
      by (intro handle_reads_owner_only) simp_all
    then show "fst (api verifyIdToken e req d2) = fst (api verifyIdToken e req d)"
      and "notes_of (snd (api verifyIdToken e req d2)) (uid usr)
             = notes_of (snd (api verifyIdToken e req d)) (uid usr)"
      and "trash_of (snd (api verifyIdToken e req d2)) (uid usr)
             = trash_of (snd (api verifyIdToken e req d)) (uid usr)"
      by (simp_all add: api) }
qed

theorem owner_isolation_witness:
  "verifyTokenMiddleware verify_two (Some ''Bearer tokB'') = Inr \<lparr>uid = ''u2'', email = None\<rparr>
   \<and> verifyTokenMiddleware verify_two (Some ''tokB'') 
       = Inl (Response 401 (errorBody ''No token provided''))
   \<and> verifyTokenMiddleware verify_two (Some ''Bearer tokC'')
       = Inl (Response 401 (errorBody ''Invalid token''))
   \<and> map fst (notesRef ''u1'' db_created) = [''n1'']
   \<and> fst (api verify_two (env_at 5000 ''x'')
        \<lparr>authorization = Some ''Bearer tokB'', route = DeleteNotesId ''n1''\<rparr> db_created)
       = Response 404 (errorBody ''Note not found'')
   \<and> notes_of (snd (api verify_two (env_at 5000 ''x'')
        \<lparr>authorization = Some ''Bearer tokB'', route = DeleteNotesId ''n1''\<rparr> db_created)) ''u1''
       = notes_of db_created ''u1''
   \<and> notes_of (snd (api verify_two (env_at 5000 ''x'')
        \<lparr>authorization = Some ''Bearer tokB'',
         route = PutNotesId ''n1'' [(''uid'', JStr ''u1''), (''text'', JStr ''gone'')]\<rparr>
        db_created)) ''u1''
       = notes_of db_created ''u1''
   \<and> map fst (notes_of (snd (api verify_two (env_at 5000 ''x'')
        \<lparr>authorization = Some ''Bearer tokB'',
         route = PutNotesId ''n1'' [(''uid'', JStr ''u1''), (''text'', JStr ''gone'')]\<rparr>
        db_created)) ''u2'') = [''n1'']"
proof -
  let ?del = "\<lparr>authorization = Some ''Bearer tokB'', route = DeleteNotesId ''n1''\<rparr>"
  let ?put = "\<lparr>authorization = Some ''Bearer tokB'',
      route = PutNotesId ''n1'' [(''uid'', JStr ''u1''), (''text'', JStr ''gone'')]\<rparr>"
  let ?e = "env_at 5000 ''x''"
  have mw: "verifyTokenMiddleware verify_two (Some ''Bearer tokB'')
      = Inr \<lparr>uid = ''u2'', email = None\<rparr>"
    by (simp add: verifyTokenMiddleware_def verify_two_def str_split_def)
  then have "verifyTokenMiddleware verify_two (authorization ?del)
        = Inr \<lparr>uid = ''u2'', email = None\<rparr>"
    and "verifyTokenMiddleware verify_two (authorization ?put)
        = Inr \<lparr>uid = ''u2'', email = None\<rparr>"
    and "''u1'' \<noteq> uid \<lparr>uid = ''u2'', email = None\<rparr>"
    by simp_all
  with owner_isolation [of verify_two ?del ?e db_created]
    owner_isolation [of verify_two ?put ?e db_created]
  have other: "notes_of (snd (api verify_two ?e ?del db_created)) ''u1''
        = notes_of db_created ''u1''"
      "notes_of (snd (api verify_two ?e ?put db_created)) ''u1'' = notes_of db_created ''u1''"
    by blast+
  have rest: "verifyTokenMiddleware verify_two (Some ''tokB'')
        = Inl (Response 401 (errorBody ''No token provided''))"
    "verifyTokenMiddleware verify_two (Some ''Bearer tokC'')
        = Inl (Response 401 (errorBody ''Invalid token''))"
    "map fst (notesRef ''u1'' db_created) = [''n1'']"
    "fst (api verify_two ?e ?del db_created) = Response 404 (errorBody ''Note not found'')"
    "map fst (notes_of (snd (api verify_two ?e ?put db_created)) ''u2'') = [''n1'']"
    by (simp_all add: verifyTokenMiddleware_def verify_two_def str_split_def api_def handle_def
        scenario_defs eval_defs write_member_def segments_plain)
  from mw other rest show ?thesis
    by simp
qed

section \<open>The store holds data\<close>

text \<open>
  Every request leaves a store that holds data as one, starting from the empty store; in
  such a store a read returns the record as it is listed, and a listing shows the records
  as they are.
\<close>

lemma holds_data_read:
  assumes "holds_data c"
  shows "child_val c k = map_of c k"
proof (cases "map_of c k")
  case None
  then show ?thesis by (simp add: child_val_def)
next
  case (Some r)
  then have "(k, r) \<in> set c" by (rule map_of_SomeD)
  with assms have "stored r = r" by (auto simp: holds_data_def)
  with Some show ?thesis by (simp add: child_val_def)
qed

lemma holds_data_push: "holds_data c \<Longrightarrow> holds_data (push k v c)"
  using set_update_subset [of k "stored v" c] by (auto simp: holds_data_def push_def)

lemma holds_data_child_update: "holds_data c \<Longrightarrow> holds_data (child_update k ms c)"
proof -
  let ?old = "case child_val c k of None \<Rightarrow> Map.empty | Some r \<Rightarrow> r"
  have "stored ?old = ?old"
    by (auto split: option.splits dest: child_val_stored)
  then have "stored (fold write_member ms ?old) = fold write_member ms ?old"
    by (rule fold_write_stored)
  moreover assume "holds_data c"
  ultimately show ?thesis
    using set_update_subset [of k "fold write_member ms ?old" c]
    by (auto simp: holds_data_def child_update_def)
qed

lemma holds_data_child_remove: "holds_data c \<Longrightarrow> holds_data (child_remove k c)"
  by (auto simp: holds_data_def child_remove_def AList.delete_eq)

lemma db_empty_holds_data: "db_holds_data db_empty"
  by (simp add: db_holds_data_def holds_data_def db_empty_def)

lemma handle_holds_data:
  assumes "db_holds_data d"
  shows "db_holds_data (snd (handle e u r d))"
  using assms
  by (cases r)
    (auto simp: db_holds_data_def handle_def handler_defs Let_def notesRef_def trashRef_def
      holds_data_push holds_data_child_update holds_data_child_remove
      split: option.splits)

lemma api_holds_data: "db_holds_data d \<Longrightarrow> db_holds_data (snd (api verifyIdToken e req d))"
  by (auto simp: api_def handle_holds_data split: sum.splits)

lemma holds_data_listing: "holds_data c \<Longrightarrow> listing c = map (\<lambda>(k, r). withId k r) c"
  by (auto simp: listing_def holds_data_def)

end
